theory Spec2Isabelle
  imports Main "HOL-Library.Log_Nat"
begin

section \<open>Tourism Management System: the user store and its session\<close>

text \<open>
  The program (\<^verbatim>\<open>Tourism_Management_System.c\<close>) keeps a singly linked list of
  \<^verbatim>\<open>user\<close> nodes, two globals (\<^verbatim>\<open>currentStatus\<close>, \<^verbatim>\<open>currentUser\<close>) and one
  file, \<^verbatim>\<open>users.txt\<close>. The embedding below follows the source function by function.

  \<^item> A linked list is a HOL list in link order; \<^verbatim>\<open>NULL\<close> is \<open>[]\<close>. A pointer to a
    node is the list that starts at that node, so a function that returns a node
    pointer returns a suffix of the list it was given.
  \<^item> A C string is a \<open>string\<close>; \<^verbatim>\<open>strcmp(a, b) == 0\<close> is \<open>a = b\<close>. The 100-byte
    buffers are not modelled: inputs are taken to fit.
  \<^item> A \<^verbatim>\<open>float\<close> is the rational number it holds (finite values only; no
    infinity, no NaN, no negative zero). A float operation gives the IEEE-754
    binary32 number nearest to the exact result, a tie going to the even one: float
    expressions are evaluated in \<^verbatim>\<open>float\<close> (\<^verbatim>\<open>FLT_EVAL_METHOD\<close> 0).
  \<^item> An \<^verbatim>\<open>int\<close> is an \<open>int\<close>: the program does no arithmetic on \<^verbatim>\<open>numberTicket\<close>
    but the conversion to \<^verbatim>\<open>float\<close>, so nothing can wrap around.
  \<^item> Console input is passed as arguments: the values the \<^verbatim>\<open>scanf\<close> calls store.
  \<^item> What a function prints, or which \<^verbatim>\<open>return\<close> it leaves by, is its \<open>outcome\<close>.
\<close>

subsection \<open>Single-precision arithmetic\<close>

text \<open>\<open>pow2 e\<close> is \<open>2\<^sup>e\<close> for any integer exponent.\<close>

definition pow2 :: "int \<Rightarrow> rat" where
  "pow2 e = 2 powi e"

text \<open>\<open>ilog2 x\<close> is \<open>\<lfloor>log\<^sub>2 \<bar>x\<bar>\<rfloor>\<close> for \<open>x \<noteq> 0\<close>: the binade of \<open>x\<close>.\<close>

definition ilog2 :: "rat \<Rightarrow> int" where
  "ilog2 x = (case quotient_of \<bar>x\<bar> of (p, q) \<Rightarrow>
      (let d = bitlen p - bitlen q in if pow2 d \<le> \<bar>x\<bar> then d else d - 1))"

definition round_half_even :: "rat \<Rightarrow> int" where
  "round_half_even q =
     (let f = \<lfloor>q\<rfloor>; d = q - of_int f
      in if d < 1 / 2 then f else if 1 / 2 < d then f + 1 else if even f then f else f + 1)"

text \<open>
  \<open>round24 x\<close> is the multiple of the unit in the last place nearest to \<open>x\<close>: 24
  significant bits, the exponent not below that of the subnormal numbers
  (\<open>2\<^sup>-\<^sup>1\<^sup>4\<^sup>9\<close> is the smallest unit).
\<close>

definition round24 :: "rat \<Rightarrow> rat" where
  "round24 x =
     (if x = 0 then 0
      else let ulp = pow2 (max (ilog2 x) (- 126) - 23)
           in of_int (round_half_even (x / ulp)) * ulp)"

text \<open>The result of a float operation: a finite value, or an infinity on overflow.\<close>

datatype fval = Fin rat | PInf | NInf

definition round32 :: "rat \<Rightarrow> fval" where
  "round32 x =
     (let r = round24 x
      in if 2 ^ 128 \<le> r then PInf else if r \<le> - (2 ^ 128) then NInf else Fin r)"

text \<open>
  \<^verbatim>\<open>(float) n\<close> for an \<^verbatim>\<open>int n\<close>: an \<^verbatim>\<open>int\<close> is below \<open>2\<^sup>3\<^sup>1\<close> in magnitude, so the
  conversion rounds and cannot overflow.
\<close>

definition int_to_float :: "int \<Rightarrow> rat" where
  "int_to_float n = round24 (of_int n)"

text \<open>\<^verbatim>\<open>a * b\<close> on two floats.\<close>

definition fmul32 :: "rat \<Rightarrow> rat \<Rightarrow> fval" where
  "fmul32 a b = round32 (a * b)"

subsection \<open>The data\<close>

datatype status = menu | loggedIn

record user =
  username :: string
  password :: string
  place :: string
  price :: rat
  numberTicket :: int

text \<open>
  The globals, and the contents of \<^verbatim>\<open>users.txt\<close> (\<open>None\<close> while the file does not
  exist).
\<close>

record globals =
  currentStatus :: status
  currentUser :: string
  users_txt :: "string option"

datatype outcome =
    UsernameExists          \<comment> \<open>\<^verbatim>\<open>Error: Username already exists!\<close>\<close>
  | AccountCreated          \<comment> \<open>\<^verbatim>\<open>User account created successfully!\<close>\<close>
  | LoginSuccessful         \<comment> \<open>\<^verbatim>\<open>Login successful!\<close>\<close>
  | WrongPassword           \<comment> \<open>\<^verbatim>\<open>Wrong Password! Access denied.\<close>\<close>
  | UserNotFound            \<comment> \<open>\<^verbatim>\<open>User not found! Please register first.\<close>\<close>
  | BookingNoUser           \<comment> \<open>\<^verbatim>\<open>booking\<close>: no node of the current user, silent return\<close>
  | AlreadyBooked           \<comment> \<open>\<^verbatim>\<open>You already have an active booking. ...\<close>\<close>
  | NotConfirmed            \<comment> \<open>\<^verbatim>\<open>booking\<close>: the answer was not \<^verbatim>\<open>1\<close>, silent return\<close>
  | InvalidTourCode         \<comment> \<open>\<^verbatim>\<open>Invalid tour code number entered!\<close>\<close>
  | ZeroTickets             \<comment> \<open>\<^verbatim>\<open>booking\<close>: the number of tickets is zero, silent return\<close>
  | BookingCompleted        \<comment> \<open>\<^verbatim>\<open>Booking completed successfully!\<close>\<close>
  | NullDereference         \<comment> \<open>\<^verbatim>\<open>checkTicket\<close> reads \<^verbatim>\<open>userptr->place\<close> with \<^verbatim>\<open>userptr == NULL\<close>\<close>
  | NoTicketBooked          \<comment> \<open>\<^verbatim>\<open>No ticket booked!\<close>\<close>
  | TicketTotal int fval string
      \<comment> \<open>\<^verbatim>\<open>%d ticket(s) booked for a total of Rs %.0f for destination %s.\<close>\<close>
  | CancelNoUser            \<comment> \<open>\<^verbatim>\<open>User not found in the system!\<close>\<close>
  | NoTourToCancel          \<comment> \<open>\<^verbatim>\<open>No tour has been booked to cancel!\<close>\<close>
  | Cancelled string int fval
      \<comment> \<open>\<^verbatim>\<open>Your booking for %s (%d ticket(s)) has been cancelled. A refund of Rs %.0f ...\<close>\<close>
  | ChangeNoUser            \<comment> \<open>\<^verbatim>\<open>changePassword\<close>: no node of the current user, silent return\<close>
  | PasswordUpdated         \<comment> \<open>\<^verbatim>\<open>Password updated successfully!\<close>\<close>
  | IncorrectPassword       \<comment> \<open>\<^verbatim>\<open>Incorrect password provided. Password was not changed.\<close>\<close>
  | NoUserLoggedIn          \<comment> \<open>\<^verbatim>\<open>Error: No user is currently logged in. Please log in first.\<close>\<close>
  | LoggedOut               \<comment> \<open>\<^verbatim>\<open>You have been successfully logged out.\<close>\<close>

subsection \<open>Writing the file: \<^verbatim>\<open>filing\<close>\<close>

definition digit :: "int \<Rightarrow> char" where
  "digit d = char_of (48 + d)"

text \<open>The decimal digits of a number that is not negative.\<close>

function dec :: "int \<Rightarrow> string" where
  "dec n = (if n < 10 then [digit n] else dec (n div 10) @ [digit (n mod 10)])"
  by pat_completeness auto
termination
  by (relation "measure nat") auto

text \<open>\<^verbatim>\<open>%d\<close>\<close>

definition fmt_d :: "int \<Rightarrow> string" where
  "fmt_d n = (if n < 0 then ''-'' @ dec (- n) else dec n)"

text \<open>
  \<^verbatim>\<open>%f\<close>: six digits after the point, the value rounded to the nearest millionth
  (a tie to the even one).
\<close>

definition fmt_f :: "rat \<Rightarrow> string" where
  "fmt_f x =
     (let n = round_half_even (\<bar>x\<bar> * 1000000);
          frac = dec (n mod 1000000)
      in (if x < 0 then ''-'' else '''') @ dec (n div 1000000) @ ''.''
         @ replicate (6 - length frac) CHR ''0'' @ frac)"

text \<open>\<^verbatim>\<open>fprintf(fp, "%s %s %s %f %d\n", ...)\<close>\<close>

definition user_line :: "user \<Rightarrow> string" where
  "user_line u =
     username u @ '' '' @ password u @ '' '' @ place u @ '' '' @ fmt_f (price u) @ '' ''
       @ fmt_d (numberTicket u) @ [CHR 0x0A]"

text \<open>The file is opened with mode \<^verbatim>\<open>"w"\<close>: what was there is replaced.\<close>

definition filing :: "user list \<Rightarrow> globals \<Rightarrow> globals" where
  "filing userptr g = g\<lparr>users_txt := Some (concat (map user_line userptr))\<rparr>"

subsection \<open>\<^verbatim>\<open>addUser\<close>\<close>

text \<open>The duplicate check: the first loop of \<^verbatim>\<open>addUser\<close>.\<close>

fun username_exists :: "string \<Rightarrow> user list \<Rightarrow> bool" where
  "username_exists name [] = False"
| "username_exists name (u # us) = (if username u = name then True else username_exists name us)"

text \<open>The node \<^verbatim>\<open>addUser\<close> fills in: no tour booked.\<close>

definition newptr :: "string \<Rightarrow> string \<Rightarrow> user" where
  "newptr name pw =
     \<lparr>username = name, password = pw, place = ''N/A'', price = 0, numberTicket = 0\<rparr>"

text \<open>
  The password is read only once the name has passed the check. The new node is linked
  after the last one, and the whole list is written out.
\<close>

definition addUser :: "user list \<Rightarrow> string \<Rightarrow> string \<Rightarrow> globals \<Rightarrow> outcome \<times> user list \<times> globals" where
  "addUser userptr name pw g =
     (if username_exists name userptr then (UsernameExists, userptr, g)
      else let tempptr = userptr @ [newptr name pw]
           in (AccountCreated, tempptr, filing tempptr g))"

subsection \<open>\<^verbatim>\<open>login\<close>\<close>

text \<open>
  The scan stops at the first node that carries the name, and returns that node
  whether or not the password matches; it returns \<^verbatim>\<open>NULL\<close> when no node carries it.
\<close>

fun login :: "user list \<Rightarrow> string \<Rightarrow> string \<Rightarrow> globals \<Rightarrow> outcome \<times> user list \<times> globals" where
  "login [] name pw g = (UserNotFound, [], g)"
| "login (u # us) name pw g =
     (if username u = name \<and> password u = pw
      then (LoginSuccessful, u # us, g\<lparr>currentStatus := loggedIn, currentUser := name\<rparr>)
      else if username u = name \<and> password u \<noteq> pw then (WrongPassword, u # us, g)
      else login us name pw g)"

text \<open>
  One pass of the loop of \<^verbatim>\<open>main\<close> in the \<open>menu\<close> state, for the choice read by
  \<^verbatim>\<open>scanf("%u", &choice1)\<close>: the list head \<^verbatim>\<open>userptr\<close> is replaced by what \<^verbatim>\<open>addUser\<close>
  or \<^verbatim>\<open>login\<close> returns. \<open>None\<close> is \<^verbatim>\<open>exit(0)\<close>.
\<close>

definition main_menu :: "nat \<Rightarrow> string \<Rightarrow> string \<Rightarrow> user list \<times> globals \<Rightarrow> (user list \<times> globals) option" where
  "main_menu choice1 name pw s =
     (if choice1 = 1 then Some (snd (addUser (fst s) name pw (snd s)))
      else if choice1 = 2 then Some (snd (login (fst s) name pw (snd s)))
      else if choice1 = 3 then Some s
      else if choice1 = 4 then None
      else Some s)"

subsection \<open>Finding the node of the current user\<close>

text \<open>
  \<^verbatim>\<open>booking\<close>, \<^verbatim>\<open>cancellation\<close>, \<^verbatim>\<open>checkTicket\<close> and \<^verbatim>\<open>changePassword\<close> start with the
  same loop: \<^verbatim>\<open>userptr\<close> advances to the first node whose name is \<^verbatim>\<open>currentUser\<close>, or
  to \<^verbatim>\<open>NULL\<close>. \<open>find_node\<close> is \<^verbatim>\<open>userptr\<close> after the loop.
\<close>

fun find_node :: "string \<Rightarrow> user list \<Rightarrow> user list" where
  "find_node name [] = []"
| "find_node name (u # us) = (if username u = name then u # us else find_node name us)"

text \<open>
  The functions then write to the fields of that node. Seen from the head
  \<^verbatim>\<open>tempptr\<close>, the list is the one it was with that node changed.
\<close>

fun update_node :: "string \<Rightarrow> (user \<Rightarrow> user) \<Rightarrow> user list \<Rightarrow> user list" where
  "update_node name f [] = []"
| "update_node name f (u # us) =
     (if username u = name then f u # us else u # update_node name f us)"

subsection \<open>\<^verbatim>\<open>booking\<close>\<close>

definition placeList :: "string list" where
  "placeList =
     [''Paris, France'', ''Tokyo, Japan'', ''Bangkok, Thailand'', ''Abu Dhabi, UAE'',
      ''Miami, USA'', ''Rome, Italy'', ''Munich, Germany'', ''Madrid, Spain'',
      ''Istanbul, Turkey'', ''Gilgit, Pakistan'']"

definition priceList :: "rat list" where
  "priceList =
     [400000, 600000, 250000, 380000, 120000, 100000, 300000, 320000, 450000, 75000]"

text \<open>The chain of \<^verbatim>\<open>strcmp(place, "1")\<close> ... \<^verbatim>\<open>strcmp(place, "10")\<close>.\<close>

definition tour :: "string \<Rightarrow> (rat \<times> string) option" where
  "tour code =
     (if code = ''1'' then Some (priceList ! 0, placeList ! 0)
      else if code = ''2'' then Some (priceList ! 1, placeList ! 1)
      else if code = ''3'' then Some (priceList ! 2, placeList ! 2)
      else if code = ''4'' then Some (priceList ! 3, placeList ! 3)
      else if code = ''5'' then Some (priceList ! 4, placeList ! 4)
      else if code = ''6'' then Some (priceList ! 5, placeList ! 5)
      else if code = ''7'' then Some (priceList ! 6, placeList ! 6)
      else if code = ''8'' then Some (priceList ! 7, placeList ! 7)
      else if code = ''9'' then Some (priceList ! 8, placeList ! 8)
      else if code = ''10'' then Some (priceList ! 9, placeList ! 9)
      else None)"

text \<open>
  \<open>code\<close> is the tour code typed, \<open>choice\<close> the answer to the confirmation and \<open>n\<close>
  the number of tickets. \<^verbatim>\<open>scanf("%d", &userptr->numberTicket)\<close> writes into the node
  before the test for zero; the place and the price are written after it.
\<close>

definition booking :: "user list \<Rightarrow> string \<Rightarrow> char \<Rightarrow> int \<Rightarrow> globals \<Rightarrow> outcome \<times> user list \<times> globals" where
  "booking userptr code choice n g =
     (case find_node (currentUser g) userptr of
        [] \<Rightarrow> (BookingNoUser, userptr, g)
      | u # _ \<Rightarrow>
          if price u \<noteq> 0 then (AlreadyBooked, userptr, g)
          else if choice \<noteq> CHR ''1'' then (NotConfirmed, userptr, g)
          else (case tour code of
                  None \<Rightarrow> (InvalidTourCode, userptr, g)
                | Some (pr, pl) \<Rightarrow>
                    if n = 0
                    then (ZeroTickets,
                          update_node (currentUser g) (\<lambda>v. v\<lparr>numberTicket := n\<rparr>) userptr, g)
                    else let tempptr =
                               update_node (currentUser g)
                                 (\<lambda>v. v\<lparr>numberTicket := n, place := pl, price := pr\<rparr>) userptr
                         in (BookingCompleted, tempptr, filing tempptr g)))"

subsection \<open>\<^verbatim>\<open>cancellation\<close>\<close>

text \<open>
  The chain of comparisons of the place with the ten destination names. \<^verbatim>\<open>flag\<close>
  starts at \<open>-1\<close> and is incremented once in every branch that does not return, so
  \<^verbatim>\<open>flag == 0\<close> holds whenever it is tested.
\<close>

definition valid_tour :: "string \<Rightarrow> bool" where
  "valid_tour p =
     (p = ''Paris, France'' \<or> p = ''Tokyo, Japan'' \<or> p = ''Bangkok, Thailand''
      \<or> p = ''Abu Dhabi, UAE'' \<or> p = ''Miami, USA'' \<or> p = ''Rome, Italy''
      \<or> p = ''Munich, Germany'' \<or> p = ''Madrid, Spain'' \<or> p = ''Istanbul, Turkey''
      \<or> p = ''Gilgit, Pakistan'')"

definition cancellation :: "user list \<Rightarrow> globals \<Rightarrow> outcome \<times> user list \<times> globals" where
  "cancellation userptr g =
     (case find_node (currentUser g) userptr of
        [] \<Rightarrow> (CancelNoUser, userptr, g)
      | u # _ \<Rightarrow>
          if valid_tour (place u)
          then let tempptr =
                     update_node (currentUser g)
                       (\<lambda>v. v\<lparr>place := ''N/A'', price := 0, numberTicket := 0\<rparr>) userptr
               in (Cancelled (place u) (numberTicket u)
                     (fmul32 (price u) (int_to_float (numberTicket u))),
                   tempptr, filing tempptr g)
          else (NoTourToCancel, userptr, g))"

subsection \<open>\<^verbatim>\<open>checkTicket\<close>\<close>

text \<open>
  The node is not tested against \<^verbatim>\<open>NULL\<close> after the loop. The string compared with
  the place is the empty one. The product is stored in \<^verbatim>\<open>float total\<close>.
\<close>

definition checkTicket :: "user list \<Rightarrow> globals \<Rightarrow> outcome" where
  "checkTicket userptr g =
     (case find_node (currentUser g) userptr of
        [] \<Rightarrow> NullDereference
      | u # _ \<Rightarrow>
          if place u = '''' \<or> price u = 0 \<or> numberTicket u = 0 then NoTicketBooked
          else TicketTotal (numberTicket u)
                 (fmul32 (price u) (int_to_float (numberTicket u))) (place u))"

subsection \<open>\<^verbatim>\<open>changePassword\<close> and \<^verbatim>\<open>logout\<close>\<close>

text \<open>The file is written on both branches of the comparison.\<close>

definition changePassword :: "user list \<Rightarrow> string \<Rightarrow> string \<Rightarrow> globals \<Rightarrow> outcome \<times> user list \<times> globals" where
  "changePassword userptr passCurrent newpw g =
     (case find_node (currentUser g) userptr of
        [] \<Rightarrow> (ChangeNoUser, userptr, g)
      | u # _ \<Rightarrow>
          if passCurrent = password u
          then let tempptr = update_node (currentUser g) (\<lambda>v. v\<lparr>password := newpw\<rparr>) userptr
               in (PasswordUpdated, tempptr, filing tempptr g)
          else (IncorrectPassword, userptr, filing userptr g))"

definition logout :: "globals \<Rightarrow> outcome \<times> globals" where
  "logout g =
     (if currentStatus g = menu \<or> currentUser g = '''' then (NoUserLoggedIn, g)
      else (LoggedOut, g\<lparr>currentUser := '''', currentStatus := menu\<rparr>))"

subsection \<open>Reading the file: \<^verbatim>\<open>initializeUser\<close>\<close>

text \<open>
  \<^verbatim>\<open>fscanf(fp, "%s %s %s %f %d", ...)\<close> works on the characters that are still to
  be read. Every conversion first skips white space.
\<close>

definition isspace :: "char \<Rightarrow> bool" where
  "isspace c =
     (c = CHR '' '' \<or> c = CHR 0x09 \<or> c = CHR 0x0A \<or> c = CHR 0x0B \<or> c = CHR 0x0C
      \<or> c = CHR 0x0D)"

definition isdigit :: "char \<Rightarrow> bool" where
  "isdigit c = (48 \<le> (of_char c :: int) \<and> (of_char c :: int) \<le> 57)"

definition digits_value :: "string \<Rightarrow> int" where
  "digits_value ds = foldl (\<lambda>a c. 10 * a + (of_char c - 48)) 0 ds"

text \<open>
  \<^verbatim>\<open>%s\<close> takes the characters up to the next white space. It fails only at the end of
  the file (\<open>None\<close>); otherwise it gives the word and the characters after it.
\<close>

definition scan_s :: "string \<Rightarrow> (string \<times> string) option" where
  "scan_s inp =
     (let s = dropWhile isspace inp
      in if s = [] then None
         else Some (takeWhile (\<lambda>c. \<not> isspace c) s, dropWhile (\<lambda>c. \<not> isspace c) s))"

text \<open>
  What a numeric conversion does: it converts and leaves the rest; or the next
  character cannot start a number and stays unread (a matching failure); or the file
  has ended (an input failure). The model reads plain decimal numbers, a sign and
  digits with an optional fraction. Anything else a C library accepts or half reads
  (an exponent, a hexadecimal number, \<^verbatim>\<open>inf\<close>, \<^verbatim>\<open>nan\<close>, a sign or a point without a
  digit after it, a value out of range) is \<open>Unmodelled\<close>.
\<close>

datatype 'a conversion =
    Converted 'a string
  | MatchingFailure string
  | InputFailure
  | Unmodelled

text \<open>\<^verbatim>\<open>%f\<close>: the decimal number is rounded to the nearest float.\<close>

definition scan_f :: "string \<Rightarrow> rat conversion" where
  "scan_f inp =
     (let s = dropWhile isspace inp
      in if s = [] then InputFailure
         else let c = hd s;
                  s1 = (if c = CHR ''-'' \<or> c = CHR ''+'' then tl s else s)
              in if s1 \<noteq> [] \<and> isdigit (hd s1)
                 then let s2 = dropWhile isdigit s1;
                          point = (s2 \<noteq> [] \<and> hd s2 = CHR ''.'');
                          fp = (if point then takeWhile isdigit (tl s2) else []);
                          s3 = (if point then dropWhile isdigit (tl s2) else s2);
                          v = of_int (digits_value (takeWhile isdigit s1))
                              + of_int (digits_value fp) / 10 ^ length fp
                      in if s3 \<noteq> [] \<and> hd s3 \<in> set ''eExX'' then Unmodelled
                         else (case round32 (if c = CHR ''-'' then - v else v) of
                                 Fin r \<Rightarrow> Converted r s3
                               | _ \<Rightarrow> Unmodelled)
                 else if c \<in> set ''+-.iInN'' then Unmodelled
                 else MatchingFailure s)"

text \<open>\<^verbatim>\<open>%d\<close>\<close>

definition scan_d :: "string \<Rightarrow> int conversion" where
  "scan_d inp =
     (let s = dropWhile isspace inp
      in if s = [] then InputFailure
         else let c = hd s;
                  s1 = (if c = CHR ''-'' \<or> c = CHR ''+'' then tl s else s)
              in if s1 \<noteq> [] \<and> isdigit (hd s1)
                 then let v = digits_value (takeWhile isdigit s1);
                          n = (if c = CHR ''-'' then - v else v)
                      in if - (2 ^ 31) \<le> n \<and> n < 2 ^ 31 then Converted n (dropWhile isdigit s1)
                         else Unmodelled
                 else if c = CHR ''-'' \<or> c = CHR ''+'' then Unmodelled
                 else MatchingFailure s)"

text \<open>
  The local \<^verbatim>\<open>user temp\<close> is not initialised: a field holds a value only once a
  conversion has stored one (\<open>None\<close> until then). It keeps its fields from one call of
  \<^verbatim>\<open>fscanf\<close> to the next.
\<close>

record temp =
  tmp_username :: "string option"
  tmp_password :: "string option"
  tmp_place :: "string option"
  tmp_price :: "rat option"
  tmp_numberTicket :: "int option"

definition temp0 :: temp where
  "temp0 =
     \<lparr>tmp_username = None, tmp_password = None, tmp_place = None, tmp_price = None,
      tmp_numberTicket = None\<rparr>"

text \<open>
  What \<^verbatim>\<open>fscanf\<close> returns: \<^verbatim>\<open>EOF\<close> when the file ends before the first conversion,
  else the number of fields it has stored. It stops at the first conversion that fails.
\<close>

datatype scanned = EndOfFile | Assigned nat

datatype error =
    UninitialisedRead   \<comment> \<open>a variable is read that was never assigned\<close>
  | UnmodelledInput     \<comment> \<open>the file holds a number the model does not read\<close>

definition fscanf :: "string \<Rightarrow> temp \<Rightarrow> error + scanned \<times> temp \<times> string" where
  "fscanf inp t =
     (case scan_s inp of
        None \<Rightarrow> Inr (EndOfFile, t, [])
      | Some (a, r1) \<Rightarrow>
          let t1 = t\<lparr>tmp_username := Some a\<rparr>
          in (case scan_s r1 of
                None \<Rightarrow> Inr (Assigned 1, t1, [])
              | Some (b, r2) \<Rightarrow>
                  let t2 = t1\<lparr>tmp_password := Some b\<rparr>
                  in (case scan_s r2 of
                        None \<Rightarrow> Inr (Assigned 2, t2, [])
                      | Some (c, r3) \<Rightarrow>
                          let t3 = t2\<lparr>tmp_place := Some c\<rparr>
                          in (case scan_f r3 of
                                InputFailure \<Rightarrow> Inr (Assigned 3, t3, [])
                              | MatchingFailure r \<Rightarrow> Inr (Assigned 3, t3, r)
                              | Unmodelled \<Rightarrow> Inl UnmodelledInput
                              | Converted x r4 \<Rightarrow>
                                  let t4 = t3\<lparr>tmp_price := Some x\<rparr>
                                  in (case scan_d r4 of
                                        InputFailure \<Rightarrow> Inr (Assigned 4, t4, [])
                                      | MatchingFailure r \<Rightarrow> Inr (Assigned 4, t4, r)
                                      | Unmodelled \<Rightarrow> Inl UnmodelledInput
                                      | Converted n r5 \<Rightarrow>
                                          Inr (Assigned 5, t4\<lparr>tmp_numberTicket := Some n\<rparr>,
                                               r5))))))"

text \<open>
  The body of the loop copies all five fields of \<^verbatim>\<open>temp\<close> into a new node, however
  many of them the last call has stored.
\<close>

definition node_of :: "temp \<Rightarrow> user option" where
  "node_of t =
     (case (tmp_username t, tmp_password t, tmp_place t, tmp_price t, tmp_numberTicket t) of
        (Some a, Some b, Some c, Some x, Some n) \<Rightarrow>
          Some \<lparr>username = a, password = b, place = c, price = x, numberTicket = n\<rparr>
      | _ \<Rightarrow> None)"

text \<open>
  The loop \<^verbatim>\<open>while (fscanf(...) != EOF)\<close>: one node for every call that does not
  return \<^verbatim>\<open>EOF\<close>, linked in the order read. That the loop ends is proved below
  (\<open>fscanf_shorter\<close>).
\<close>

function read_users :: "string \<Rightarrow> temp \<Rightarrow> error + user list" where
  "read_users inp t =
     (case fscanf inp t of
        Inl e \<Rightarrow> Inl e
      | Inr (EndOfFile, _, _) \<Rightarrow> Inr []
      | Inr (Assigned k, t', rest) \<Rightarrow>
          (case node_of t' of
             None \<Rightarrow> Inl UninitialisedRead
           | Some ptr \<Rightarrow>
               (case read_users rest t' of Inl e \<Rightarrow> Inl e | Inr us \<Rightarrow> Inr (ptr # us))))"
  by pat_completeness auto

text \<open>
  No file, or an empty one: \<^verbatim>\<open>NULL\<close>. Otherwise the head \<^verbatim>\<open>tempptr\<close> of the list
  read is returned. \<^verbatim>\<open>tempptr\<close> is assigned only when the first node is linked while
  \<^verbatim>\<open>userptr\<close> is \<^verbatim>\<open>NULL\<close> (\<^verbatim>\<open>main\<close> passes \<^verbatim>\<open>NULL\<close>).
\<close>

definition initializeUser :: "user list \<Rightarrow> globals \<Rightarrow> error + user list" where
  "initializeUser userptr g =
     (case users_txt g of
        None \<Rightarrow> Inr []
      | Some txt \<Rightarrow>
          if txt = [] then Inr []
          else (case read_users txt temp0 of
                  Inl e \<Rightarrow> Inl e
                | Inr us \<Rightarrow>
                    if us = [] \<or> userptr \<noteq> [] then Inl UninitialisedRead else Inr us))"

subsection \<open>The vocabulary of the properties\<close>

text \<open>
  \<open>at_node name userptr pre u rest\<close>: in the list \<open>userptr\<close>, \<open>u\<close> is the first node
  that carries \<open>name\<close>; \<open>pre\<close> are the nodes before it and \<open>rest\<close> those after it. With
  \<open>name\<close> the current user, \<open>u\<close> is the record the logged-in functions work on.
\<close>

definition at_node :: "string \<Rightarrow> user list \<Rightarrow> user list \<Rightarrow> user \<Rightarrow> user list \<Rightarrow> bool" where
  "at_node name userptr pre u rest =
     (userptr = pre @ u # rest \<and> username u = name \<and> name \<notin> set (map username pre))"

text \<open>
  The booking triple of a record is its place, price and number of tickets. It is
  empty when it is what \<^verbatim>\<open>addUser\<close> and \<^verbatim>\<open>cancellation\<close> write; it is a booking when
  the place is one of the ten destinations and neither number is zero.
\<close>

definition no_booking :: "user \<Rightarrow> bool" where
  "no_booking u = (place u = ''N/A'' \<and> price u = 0 \<and> numberTicket u = 0)"

definition booked :: "user \<Rightarrow> bool" where
  "booked u = (valid_tour (place u) \<and> price u \<noteq> 0 \<and> numberTicket u \<noteq> 0)"

text \<open>
  The invariant of a record: the place is the sentinel if and only if the price is
  zero, if and only if the number of tickets is zero.
\<close>

definition triple_invariant :: "user \<Rightarrow> bool" where
  "triple_invariant u =
     ((place u = ''N/A'') = (price u = 0) \<and> (price u = 0) = (numberTicket u = 0))"

text \<open>
  The numbers a float can hold exactly: an integer of less than 24 bits times a power
  of two, within the exponent range.
\<close>

definition binary32 :: "rat \<Rightarrow> bool" where
  "binary32 x = (\<exists>m e. \<bar>m\<bar> < 2 ^ 24 \<and> - 149 \<le> e \<and> e \<le> 104 \<and> x = of_int m * pow2 e)"

subsection \<open>Sample stores\<close>

definition g_menu :: globals where
  "g_menu = \<lparr>currentStatus = menu, currentUser = '''', users_txt = None\<rparr>"

definition g_alice :: globals where
  "g_alice = \<lparr>currentStatus = loggedIn, currentUser = ''alice'', users_txt = None\<rparr>"

definition alice :: user where
  "alice = newptr ''alice'' ''pw1''"

definition bob :: user where
  "bob = newptr ''bob'' ''pw2''"

definition carol :: user where
  "carol = newptr ''carol'' ''pw3''"

definition alice_paris :: user where
  "alice_paris = alice\<lparr>place := ''Paris, France'', price := 400000, numberTicket := 2\<rparr>"

definition alice_bangkok :: user where
  "alice_bangkok = alice\<lparr>place := ''Bangkok, Thailand'', price := 250000, numberTicket := 2\<rparr>"

definition alice_tokyo :: user where
  "alice_tokyo = alice\<lparr>place := ''Tokyo, Japan'', price := 600000, numberTicket := 1791\<rparr>"

text \<open>What \<^verbatim>\<open>initializeUser\<close> makes of the line that \<^verbatim>\<open>filing\<close> writes for \<open>alice_paris\<close>.\<close>

definition paris_fragment :: user where
  "paris_fragment =
     \<lparr>username = ''alice'', password = ''pw1'', place = ''Paris,'', price = 0, numberTicket = 0\<rparr>"

definition france_fragment :: user where
  "france_fragment =
     \<lparr>username = ''France'', password = ''400000.000000'', place = ''2'', price = 0,
      numberTicket = 0\<rparr>"

text \<open>A record with a space in its password, and what is read back for it.\<close>

definition erin_miami :: user where
  "erin_miami =
     \<lparr>username = ''erin'', password = ''my pw'', place = ''Miami, USA'', price = 120000,
      numberTicket = 1\<rparr>"

definition erin_fragment :: user where
  "erin_fragment =
     \<lparr>username = ''erin'', password = ''my'', place = ''pw'', price = 0, numberTicket = 0\<rparr>"

definition miami_fragment :: user where
  "miami_fragment =
     \<lparr>username = ''Miami,'', password = ''USA'', place = ''120000.000000'', price = 1,
      numberTicket = 0\<rparr>"

section \<open>Properties\<close>

subsection \<open>The reading loop ends\<close>

text \<open>
  Every call of \<^verbatim>\<open>fscanf\<close> that does not return \<^verbatim>\<open>EOF\<close> has read a word, so fewer
  characters are left for the next call.
\<close>

lemma scan_s_shorter: "scan_s inp = Some (a, r) \<Longrightarrow> length r < length inp"
proof -
  assume h: "scan_s inp = Some (a, r)"
  let ?s = "dropWhile isspace inp"
  from h have ne: "?s \<noteq> []" and r: "r = dropWhile (\<lambda>c. \<not> isspace c) ?s"
    by (auto simp: scan_s_def Let_def split: if_splits)
  from ne have "\<not> isspace (hd ?s)" by (rule hd_dropWhile)
  with ne have "r = dropWhile (\<lambda>c. \<not> isspace c) (tl ?s)"
    unfolding r by (cases ?s) auto
  then have "length r \<le> length (tl ?s)" by (simp only: length_dropWhile_le)
  also have "\<dots> < length ?s" using ne by simp
  also have "\<dots> \<le> length inp" by (rule length_dropWhile_le)
  finally show ?thesis .
qed

lemma dropWhile_tl_shorter: "length (dropWhile P (tl (dropWhile Q xs))) \<le> length xs"
  by (metis diff_le_self le_trans length_dropWhile_le length_tl)

lemma dropWhile_twice_shorter: "length (dropWhile P (dropWhile Q xs)) \<le> length xs"
  by (meson le_trans length_dropWhile_le)

lemma scan_f_shorter:
  "scan_f inp = Converted x r \<or> scan_f inp = MatchingFailure r \<Longrightarrow> length r \<le> length inp"
proof -
  have b: "length (dropWhile P (tl (dropWhile Q (tl (dropWhile R xs))))) \<le> length xs"
    for P Q R and xs :: string
    using dropWhile_tl_shorter [of P Q "tl (dropWhile R xs)"] length_dropWhile_le [of R xs]
    by simp
  have d: "length (dropWhile P (tl (dropWhile Q (dropWhile R xs)))) \<le> length xs"
    for P Q R and xs :: string
    using dropWhile_tl_shorter [of P Q "dropWhile R xs"] length_dropWhile_le [of R xs] by simp
  have e: "length (dropWhile P (dropWhile Q (tl (dropWhile R xs)))) \<le> length xs"
    for P Q R and xs :: string
    using dropWhile_twice_shorter [of P Q "tl (dropWhile R xs)"] length_dropWhile_le [of R xs]
    by simp
  assume "scan_f inp = Converted x r \<or> scan_f inp = MatchingFailure r"
  then show ?thesis
    by (auto simp: scan_f_def Let_def b d e dropWhile_tl_shorter dropWhile_twice_shorter
        length_dropWhile_le split: if_splits fval.splits simp del: set_simps)
qed

lemma scan_d_shorter:
  "scan_d inp = Converted x r \<or> scan_d inp = MatchingFailure r \<Longrightarrow> length r \<le> length inp"
  by (auto simp: scan_d_def Let_def dropWhile_tl_shorter dropWhile_twice_shorter
      length_dropWhile_le split: if_splits)

lemma fscanf_shorter:
  assumes "fscanf inp t = Inr (Assigned k, t', rest)"
  shows "length rest < length inp"
proof -
  from assms obtain a r1 where 1: "scan_s inp = Some (a, r1)"
    by (cases "scan_s inp") (auto simp: fscanf_def)
  then have l1: "length r1 < length inp" by (rule scan_s_shorter)
  show ?thesis
  proof (cases "scan_s r1")
    case None
    with assms 1 l1 show ?thesis by (auto simp: fscanf_def Let_def)
  next
    case (Some p2)
    then obtain b r2 where 2: "scan_s r1 = Some (b, r2)" by (cases p2) auto
    then have l2: "length r2 < length r1" by (rule scan_s_shorter)
    show ?thesis
    proof (cases "scan_s r2")
      case None
      with assms 1 2 l1 show ?thesis by (auto simp: fscanf_def Let_def)
    next
      case (Some p3)
      then obtain c r3 where 3: "scan_s r2 = Some (c, r3)" by (cases p3) auto
      then have l3: "length r3 < length r2" by (rule scan_s_shorter)
      show ?thesis
      proof (cases "scan_f r3")
        case (Converted x r4)
        note f = this
        then have l4: "length r4 \<le> length r3" using scan_f_shorter by blast
        show ?thesis
        proof (cases "scan_d r4")
          case (Converted n r5)
          then have "length r5 \<le> length r4" using scan_d_shorter by blast
          with assms 1 2 3 f Converted l1 l2 l3 l4
          show ?thesis by (auto simp: fscanf_def Let_def)
        next
          case (MatchingFailure r)
          then have "length r \<le> length r4" using scan_d_shorter by blast
          with assms 1 2 3 f MatchingFailure l1 l2 l3 l4
          show ?thesis by (auto simp: fscanf_def Let_def)
        next
          case InputFailure
          with assms 1 2 3 f l1 show ?thesis by (auto simp: fscanf_def Let_def)
        next
          case Unmodelled
          with assms 1 2 3 f show ?thesis by (auto simp: fscanf_def Let_def)
        qed
      next
        case (MatchingFailure r)
        then have "length r \<le> length r3" using scan_f_shorter by blast
        with assms 1 2 3 MatchingFailure l1 l2 l3 show ?thesis
          by (auto simp: fscanf_def Let_def)
      next
        case InputFailure
        with assms 1 2 3 l1 show ?thesis by (auto simp: fscanf_def Let_def)
      next
        case Unmodelled
        with assms 1 2 3 show ?thesis by (auto simp: fscanf_def Let_def)
      qed
    qed
  qed
qed

termination read_users
  by (relation "measure (\<lambda>(inp, t). length inp)") (auto dest: fscanf_shorter)


subsection \<open>Scanning the list\<close>

lemma username_exists_iff: "username_exists name us \<longleftrightarrow> name \<in> set (map username us)"
  by (induction us) auto

lemma login_absent:
  "name \<notin> set (map username us) \<Longrightarrow> login us name pw g = (UserNotFound, [], g)"
  by (induction us) auto

lemma login_skip:
  "name \<notin> set (map username pre) \<Longrightarrow> login (pre @ us) name pw g = login us name pw g"
  by (induction pre) auto

lemma find_node_at: "at_node name userptr pre u rest \<Longrightarrow> find_node name userptr = u # rest"
  unfolding at_node_def by (induction pre arbitrary: userptr) auto

lemma update_node_at:
  "at_node name userptr pre u rest \<Longrightarrow> update_node name f userptr = pre @ f u # rest"
  unfolding at_node_def by (induction pre arbitrary: userptr) auto

lemma find_node_Cons_at:
  "find_node name us = u # rest \<Longrightarrow> \<exists>pre. at_node name us pre u rest"
proof (induction us)
  case Nil
  then show ?case by simp
next
  case (Cons a us)
  show ?case
  proof (cases "username a = name")
    case True
    with Cons.prems have "at_node name (a # us) [] u rest" by (simp add: at_node_def)
    then show ?thesis ..
  next
    case False
    with Cons obtain pre where "at_node name us pre u rest" by auto
    with False have "at_node name (a # us) (a # pre) u rest" by (auto simp: at_node_def)
    then show ?thesis ..
  qed
qed

lemma tour_price: "tour code = Some (pr, pl) \<Longrightarrow> pr \<noteq> 0 \<and> valid_tour pl"
  by (auto simp: tour_def priceList_def placeList_def valid_tour_def split: if_splits)

lemma currentUser_filing: "currentUser (filing us g) = currentUser g"
  by (simp add: filing_def)

subsection \<open>\<^verbatim>\<open>login\<close>\<close>

text \<open>
  C4. The list that \<^verbatim>\<open>login\<close> returns, which \<^verbatim>\<open>main\<close> stores as the new head, is
  \<^verbatim>\<open>NULL\<close> when no node carries the name, so the whole store is dropped. When a node
  carries it, the list returned starts at the first such node, whether the password
  is right (\<open>LoginSuccessful\<close>) or wrong (\<open>WrongPassword\<close>): the nodes before it are
  dropped.
\<close>

theorem login_returns_matched_node:
  "(name \<notin> set (map username userptr) \<longrightarrow>
      login userptr name pw g = (UserNotFound, [], g) \<and>
      main_menu 2 name pw (userptr, g) = Some ([], g)) \<and>
   (at_node name userptr pre u rest \<longrightarrow>
      fst (login userptr name pw g) =
        (if password u = pw then LoginSuccessful else WrongPassword) \<and>
      fst (snd (login userptr name pw g)) = u # rest \<and>
      map_option fst (main_menu 2 name pw (userptr, g)) = Some (u # rest))"
  by (auto simp: main_menu_def login_absent login_skip at_node_def)

theorem login_returns_matched_node_witness:
  "''dave'' \<notin> set (map username [alice, bob, carol]) \<and>
   login [alice, bob, carol] ''dave'' ''x'' g_menu = (UserNotFound, [], g_menu) \<and>
   main_menu 2 ''dave'' ''x'' ([alice, bob, carol], g_menu) = Some ([], g_menu) \<and>
   at_node ''bob'' [alice, bob, carol] [alice] bob [carol] \<and>
   fst (login [alice, bob, carol] ''bob'' ''bad'' g_menu) = WrongPassword \<and>
   fst (snd (login [alice, bob, carol] ''bob'' ''bad'' g_menu)) = [bob, carol] \<and>
   map_option fst (main_menu 2 ''bob'' ''bad'' ([alice, bob, carol], g_menu)) = Some [bob, carol] \<and>
   fst (login [alice, bob, carol] ''bob'' ''pw2'' g_menu) = LoginSuccessful \<and>
   fst (snd (login [alice, bob, carol] ''bob'' ''pw2'' g_menu)) = [bob, carol]"
proof -
  have a: "at_node ''bob'' [alice, bob, carol] [alice] bob [carol]"
    by (simp add: at_node_def alice_def bob_def newptr_def)
  have d: "''dave'' \<notin> set (map username [alice, bob, carol])"
    by (simp add: alice_def bob_def carol_def newptr_def)
  have p: "password bob = ''pw2''" "password bob \<noteq> ''bad''" by (simp_all add: bob_def newptr_def)
  show ?thesis
    using a d p
      login_returns_matched_node [of "''dave''" "[alice, bob, carol]" "''x''" g_menu]
      login_returns_matched_node [of "''bob''" "[alice, bob, carol]" "''bad''" g_menu "[alice]" bob "[carol]"]
      login_returns_matched_node [of "''bob''" "[alice, bob, carol]" "''pw2''" g_menu "[alice]" bob "[carol]"]
    by simp
qed

text \<open>
  C6. When the store holds a record with the name, and the password given differs
  from the one stored in it, \<^verbatim>\<open>login\<close> answers \<open>WrongPassword\<close>, not \<open>UserNotFound\<close>.
  The record looked up is the first one with the name (a store built by \<^verbatim>\<open>addUser\<close>
  has at most one).
\<close>

theorem login_wrong_password:
  "find (\<lambda>u. username u = name) userptr = Some u \<Longrightarrow> password u \<noteq> pw \<Longrightarrow>
   fst (login userptr name pw g) = WrongPassword \<and> fst (login userptr name pw g) \<noteq> UserNotFound"
  by (induction userptr) (auto split: if_splits)

theorem login_wrong_password_witness:
  "find (\<lambda>u. username u = ''bob'') [alice, bob, carol] = Some bob \<and> password bob \<noteq> ''pw1'' \<and>
   fst (login [alice, bob, carol] ''bob'' ''pw1'' g_menu) = WrongPassword \<and>
   fst (login [alice, bob, carol] ''bob'' ''pw1'' g_menu) \<noteq> UserNotFound"
proof -
  have f: "find (\<lambda>u. username u = ''bob'') [alice, bob, carol] = Some bob"
    by (simp add: alice_def bob_def newptr_def)
  have p: "password bob \<noteq> ''pw1''" by (simp add: bob_def newptr_def)
  show ?thesis using f p login_wrong_password [OF f p, of g_menu] by simp
qed

subsection \<open>\<^verbatim>\<open>addUser\<close>\<close>

text \<open>
  C5. When the name typed is already the name of a record (the strings are equal,
  character by character), \<^verbatim>\<open>addUser\<close> answers \<open>UsernameExists\<close> and returns the list it
  was given; the globals and the file are as they were.
\<close>

theorem addUser_duplicate_unchanged:
  "name \<in> set (map username userptr) \<Longrightarrow>
   addUser userptr name pw g = (UsernameExists, userptr, g)"
  by (simp add: addUser_def username_exists_iff)

theorem addUser_duplicate_unchanged_witness:
  "''bob'' \<in> set (map username [alice, bob, carol]) \<and>
   addUser [alice, bob, carol] ''bob'' ''other'' g_menu = (UsernameExists, [alice, bob, carol], g_menu)"
proof -
  have m: "''bob'' \<in> set (map username [alice, bob, carol])"
    by (simp add: bob_def newptr_def)
  show ?thesis using m addUser_duplicate_unchanged [OF m, of "''other''" g_menu] by simp
qed

text \<open>
  C7. When \<^verbatim>\<open>addUser\<close> succeeds with a name and a password, the new list is the old
  one with the new record at its end, and \<^verbatim>\<open>login\<close> on the new list with the same name
  and password answers \<open>LoginSuccessful\<close> and returns the node of that very record; the
  session is then logged in under the name.
\<close>

theorem addUser_then_login:
  "addUser userptr name pw g = (AccountCreated, userptr', g') \<Longrightarrow>
   userptr' = userptr @ [newptr name pw] \<and>
   login userptr' name pw g' =
     (LoginSuccessful, [newptr name pw], g'\<lparr>currentStatus := loggedIn, currentUser := name\<rparr>)"
  by (auto simp: addUser_def Let_def username_exists_iff login_skip newptr_def split: if_splits)

theorem addUser_then_login_witness:
  "addUser [alice, bob] ''carol'' ''pw3'' g_menu =
     (AccountCreated, [alice, bob, carol], filing [alice, bob, carol] g_menu) \<and>
   login [alice, bob, carol] ''carol'' ''pw3'' (filing [alice, bob, carol] g_menu) =
     (LoginSuccessful, [carol],
      (filing [alice, bob, carol] g_menu)\<lparr>currentStatus := loggedIn, currentUser := ''carol''\<rparr>)"
proof -
  have a: "addUser [alice, bob] ''carol'' ''pw3'' g_menu =
     (AccountCreated, [alice, bob, carol], filing [alice, bob, carol] g_menu)"
    by (simp add: addUser_def Let_def alice_def bob_def carol_def newptr_def)
  show ?thesis using a addUser_then_login [OF a] by (simp add: carol_def)
qed

subsection \<open>\<^verbatim>\<open>booking\<close>\<close>

text \<open>
  C8. When \<^verbatim>\<open>booking\<close> has completed, a second call, with any tour code, answer and
  number of tickets, and with no \<^verbatim>\<open>cancellation\<close> in between, answers \<open>AlreadyBooked\<close>
  and changes neither the list nor the file.
\<close>

theorem booking_twice_already_booked:
  "booking userptr code choice n g = (BookingCompleted, userptr', g') \<Longrightarrow>
   booking userptr' code' choice' n' g' = (AlreadyBooked, userptr', g')"
proof -
  assume b: "booking userptr code choice n g = (BookingCompleted, userptr', g')"
  obtain u rest where f: "find_node (currentUser g) userptr = u # rest"
    using b by (cases "find_node (currentUser g) userptr") (auto simp: booking_def)
  obtain pr pl where t: "tour code = Some (pr, pl)"
    using b f by (cases "tour code") (auto simp: booking_def split: if_splits)
  obtain pre where a: "at_node (currentUser g) userptr pre u rest"
    using find_node_Cons_at [OF f] ..
  let ?v = "u\<lparr>numberTicket := n, place := pl, price := pr\<rparr>"
  have r: "userptr' = pre @ ?v # rest" "g' = filing userptr' g"
    using b f t a by (auto simp: booking_def update_node_at Let_def split: if_splits)
  have "at_node (currentUser g') userptr' pre ?v rest"
    using a r by (simp add: at_node_def currentUser_filing)
  then have "find_node (currentUser g') userptr' = ?v # rest" by (rule find_node_at)
  moreover have "pr \<noteq> 0" using t tour_price by blast
  ultimately show ?thesis by (simp add: booking_def)
qed

theorem booking_twice_already_booked_witness:
  "booking [alice] ''3'' (CHR ''1'') 2 g_alice =
     (BookingCompleted, [alice_bangkok], filing [alice_bangkok] g_alice) \<and>
   booking [alice_bangkok] ''5'' (CHR ''1'') 7 (filing [alice_bangkok] g_alice) =
     (AlreadyBooked, [alice_bangkok], filing [alice_bangkok] g_alice)"
proof -
  have b: "booking [alice] ''3'' (CHR ''1'') 2 g_alice =
     (BookingCompleted, [alice_bangkok], filing [alice_bangkok] g_alice)"
    by (simp add: booking_def Let_def alice_def alice_bangkok_def newptr_def g_alice_def
        tour_def priceList_def placeList_def)
  show ?thesis using b booking_twice_already_booked [OF b] by simp
qed

subsection \<open>Rounding to a float\<close>

lemma pow2_pos: "0 < pow2 e"
  by (simp add: pow2_def zero_less_power_int)

lemma pow2_nat: "pow2 (int n) = 2 ^ n"
  by (simp add: pow2_def)

lemma pow2_diff: "pow2 (a - b) = pow2 a / pow2 b"
  by (simp add: pow2_def power_int_diff)

lemma pow2_add: "pow2 (a + b) = pow2 a * pow2 b"
  by (simp add: pow2_def power_int_add)

lemma pow2_mono: "a \<le> b \<Longrightarrow> pow2 a \<le> pow2 b"
  unfolding pow2_def by (intro power_int_increasing) auto

lemma pow2_less_imp: "pow2 a < pow2 b \<Longrightarrow> a < b"
  using pow2_mono [of b a] by (cases "a < b") auto

lemma pow2_quotient: "k \<le> e \<Longrightarrow> pow2 e / pow2 k = 2 ^ nat (e - k)"
  using pow2_diff [of e k] pow2_nat [of "nat (e - k)"] by simp

text \<open>\<open>ilog2 x\<close> is the binade of \<open>x\<close>: \<open>2\<^bsup>ilog2 x\<^esup> \<le> \<bar>x\<bar> < 2\<^bsup>ilog2 x + 1\<^esup>\<close>.\<close>

lemma ilog2_lower:
  assumes "x \<noteq> 0"
  shows "pow2 (ilog2 x) \<le> \<bar>x\<bar>"
proof -
  obtain p q where pq: "quotient_of \<bar>x\<bar> = (p, q)" by (cases "quotient_of \<bar>x\<bar>")
  have q: "0 < q" using pq by (rule quotient_of_denom_pos)
  have x: "\<bar>x\<bar> = of_int p / of_int q" using pq by (rule quotient_of_div)
  have "0 < \<bar>x\<bar>" using assms by simp
  with x q have p: "0 < p" by (simp add: zero_less_divide_iff)
  let ?d = "bitlen p - bitlen q"
  show ?thesis
  proof (cases "pow2 ?d \<le> \<bar>x\<bar>")
    case True
    then show ?thesis by (simp add: ilog2_def pq)
  next
    case False
    have bp: "1 \<le> bitlen p" and bq: "1 \<le> bitlen q"
      using p q by (auto simp: bitlen_alt_def)
    have "2 ^ nat (bitlen p - 1) \<le> p" "q < 2 ^ nat (bitlen q)"
      using bitlen_bounds [OF p] bitlen_bounds [OF q] by auto
    then have "(of_int (2 ^ nat (bitlen p - 1)) :: rat) \<le> of_int p"
      and "(of_int q :: rat) < of_int (2 ^ nat (bitlen q))"
      by (simp_all only: of_int_le_iff of_int_less_iff)
    then have 1: "pow2 (bitlen p - 1) \<le> of_int p" and 2: "of_int q < pow2 (bitlen q)"
      using bp bq by (simp_all add: pow2_def power_int_def)
    have "pow2 (?d - 1) = pow2 (bitlen p - 1) / pow2 (bitlen q)"
      using pow2_diff [of "bitlen p - 1" "bitlen q"] by (simp add: algebra_simps)
    also have "\<dots> \<le> of_int p / pow2 (bitlen q)"
      using 1 pow2_pos [of "bitlen q"] by (simp add: divide_right_mono)
    also have "\<dots> \<le> of_int p / of_int q"
      using 2 p q by (intro divide_left_mono) (auto simp: pow2_pos)
    finally have "pow2 (?d - 1) \<le> \<bar>x\<bar>" by (simp only: x)
    moreover have "ilog2 x = ?d - 1" using False by (simp add: ilog2_def pq)
    ultimately show ?thesis by simp
  qed
qed

lemma ilog2_upper:
  assumes "x \<noteq> 0"
  shows "\<bar>x\<bar> < pow2 (ilog2 x + 1)"
proof -
  obtain p q where pq: "quotient_of \<bar>x\<bar> = (p, q)" by (cases "quotient_of \<bar>x\<bar>")
  have q: "0 < q" using pq by (rule quotient_of_denom_pos)
  have x: "\<bar>x\<bar> = of_int p / of_int q" using pq by (rule quotient_of_div)
  have "0 < \<bar>x\<bar>" using assms by simp
  with x q have p: "0 < p" by (simp add: zero_less_divide_iff)
  let ?d = "bitlen p - bitlen q"
  show ?thesis
  proof (cases "pow2 ?d \<le> \<bar>x\<bar>")
    case False
    then show ?thesis by (simp add: ilog2_def pq)
  next
    case True
    have bp: "1 \<le> bitlen p" and bq: "1 \<le> bitlen q"
      using p q by (auto simp: bitlen_alt_def)
    have "p < 2 ^ nat (bitlen p)" "2 ^ nat (bitlen q - 1) \<le> q"
      using bitlen_bounds [OF p] bitlen_bounds [OF q] by auto
    then have "(of_int p :: rat) < of_int (2 ^ nat (bitlen p))"
      and "(of_int (2 ^ nat (bitlen q - 1)) :: rat) \<le> of_int q"
      by (simp_all only: of_int_le_iff of_int_less_iff)
    then have 1: "of_int p < pow2 (bitlen p)" and 2: "pow2 (bitlen q - 1) \<le> of_int q"
      using bp bq by (simp_all add: pow2_def power_int_def)
    have "of_int p / of_int q < pow2 (bitlen p) / of_int q"
      using 1 q by (simp add: divide_strict_right_mono)
    also have "\<dots> \<le> pow2 (bitlen p) / pow2 (bitlen q - 1)"
      using 2 q by (intro divide_left_mono) (auto simp: pow2_pos less_imp_le)
    also have "\<dots> = pow2 (?d + 1)"
      using pow2_diff [of "bitlen p" "bitlen q - 1"] by (simp add: algebra_simps)
    finally have "\<bar>x\<bar> < pow2 (?d + 1)" by (simp only: x)
    moreover have "ilog2 x = ?d" using True by (simp add: ilog2_def pq)
    ultimately show ?thesis by simp
  qed
qed

lemma round_half_even_int: "round_half_even (of_int n) = n"
  by (simp add: round_half_even_def)

text \<open>A number of 24 bits at an exponent in range is not changed by rounding.\<close>

lemma round24_exact:
  assumes m: "\<bar>m\<bar> < 2 ^ 24" and e: "- 149 \<le> e"
  shows "round24 (of_int m * pow2 e) = of_int m * pow2 e"
proof (cases "m = 0")
  case True
  then show ?thesis by (simp add: round24_def)
next
  case False
  let ?x = "of_int m * pow2 e"
  let ?k = "max (ilog2 ?x) (- 126) - 23"
  have x0: "?x \<noteq> 0" using False pow2_pos [of e] by simp
  have "pow2 (ilog2 ?x) \<le> \<bar>?x\<bar>" using x0 by (rule ilog2_lower)
  also have "\<bar>?x\<bar> = of_int \<bar>m\<bar> * pow2 e" using pow2_pos [of e] by (simp add: abs_mult)
  also have "\<dots> < 2 ^ 24 * pow2 e"
  proof -
    have "(of_int \<bar>m\<bar> :: rat) < of_int (2 ^ 24)" using m by (simp only: of_int_less_iff)
    then show ?thesis using pow2_pos [of e] by simp
  qed
  also have "\<dots> = pow2 (24 + e)"
  proof -
    have "pow2 24 = 2 ^ 24" by (simp add: pow2_def)
    then show ?thesis by (simp only: pow2_add)
  qed
  finally have "ilog2 ?x < 24 + e" by (rule pow2_less_imp)
  with e have k: "?k \<le> e" by simp
  have "?x / pow2 ?k = of_int m * (pow2 e / pow2 ?k)" by simp
  also have "pow2 e / pow2 ?k = 2 ^ nat (e - ?k)" using k by (rule pow2_quotient)
  finally have "?x / pow2 ?k = of_int (m * 2 ^ nat (e - ?k))" by simp
  then have "of_int (round_half_even (?x / pow2 ?k)) * pow2 ?k = ?x / pow2 ?k * pow2 ?k"
    by (simp only: round_half_even_int)
  also have "\<dots> = ?x" using pow2_pos [of ?k] by simp
  finally show ?thesis using x0 by (simp add: round24_def Let_def)
qed

lemma binary32_bound:
  assumes "binary32 x"
  shows "\<bar>x\<bar> < 2 ^ 128"
proof -
  from assms obtain m e where m: "\<bar>m\<bar> < 2 ^ 24" and e: "e \<le> 104"
    and x: "x = of_int m * pow2 e"
    by (auto simp: binary32_def)
  have "(of_int \<bar>m\<bar> :: rat) < of_int (2 ^ 24)" using m by (simp only: of_int_less_iff)
  then have 1: "(of_int \<bar>m\<bar> :: rat) < 2 ^ 24" by simp
  have "pow2 e \<le> pow2 104" using e by (rule pow2_mono)
  then have 2: "pow2 e \<le> 2 ^ 104" by (simp add: pow2_def)
  have "\<bar>x\<bar> = of_int \<bar>m\<bar> * pow2 e" using x pow2_pos [of e] by (simp add: abs_mult)
  also have "\<dots> < 2 ^ 24 * 2 ^ 104"
    using 1 2 pow2_pos [of e] by (intro mult_less_le_imp_less) auto
  finally show ?thesis by simp
qed

lemma round32_exact:
  assumes "binary32 x"
  shows "round32 x = Fin x"
proof -
  from assms have "round24 x = x" by (auto simp: binary32_def round24_exact)
  moreover have "\<bar>x\<bar> < 2 ^ 128" using assms by (rule binary32_bound)
  ultimately show ?thesis by (auto simp: round32_def)
qed

lemma int_to_float_exact: "binary32 (of_int n) \<Longrightarrow> int_to_float n = of_int n"
  using round32_exact [of "of_int n"]
  by (auto simp: int_to_float_def round32_def Let_def split: if_splits)

text \<open>The product of two floats is exact when the float can hold it.\<close>

lemma fmul32_exact:
  "binary32 (of_int n) \<Longrightarrow> binary32 (p * of_int n) \<Longrightarrow>
   fmul32 p (int_to_float n) = Fin (p * of_int n)"
  by (simp add: fmul32_def int_to_float_exact round32_exact)

lemma binary32_scaled:
  assumes "\<bar>c * n\<bar> < 2 ^ 24" and "k \<le> 104"
  shows "binary32 (of_int c * 2 ^ k * of_int n)"
  unfolding binary32_def
proof (intro exI conjI)
  show "\<bar>c * n\<bar> < 2 ^ 24" by (rule assms)
  show "- 149 \<le> int k" by simp
  show "int k \<le> 104" using assms(2) by simp
  show "of_int c * 2 ^ k * rat_of_int n = of_int (c * n) * pow2 (int k)"
    by (simp add: pow2_nat)
qed

lemma binary32_int: "\<bar>i\<bar> < 2 ^ 24 \<Longrightarrow> binary32 (of_int i)"
  using binary32_scaled [of 1 i 0] by simp

text \<open>
  With a price of the catalogue and at most 596 tickets the float holds the product:
  the odd part of a price is at most 28125, and \<open>28125 \<times> 596 < 2\<^sup>2\<^sup>4\<close>.
\<close>

lemma catalogue_product_exact:
  assumes "pr \<in> set priceList" and "\<bar>n\<bar> \<le> 596"
  shows "binary32 (of_int n) \<and> binary32 (pr * of_int n)"
proof -
  have s: "binary32 (of_int c * 2 ^ k * of_int n)" if "0 \<le> c" "c \<le> 28125" "k \<le> 104" for c k
  proof -
    have "\<bar>c * n\<bar> = c * \<bar>n\<bar>" using that(1) by (simp add: abs_mult)
    also have "\<dots> \<le> 28125 * 596" using that assms(2) by (intro mult_mono) auto
    finally have "\<bar>c * n\<bar> < 2 ^ 24" by simp
    then show ?thesis using that(3) by (rule binary32_scaled)
  qed
  from assms(1) consider "pr = 400000" | "pr = 600000" | "pr = 250000" | "pr = 380000"
    | "pr = 120000" | "pr = 100000" | "pr = 300000" | "pr = 320000" | "pr = 450000"
    | "pr = 75000"
    by (auto simp: priceList_def)
  then have "binary32 (pr * of_int n)"
  proof cases
    case 1 then show ?thesis using s [of 3125 7] by simp
  next
    case 2 then show ?thesis using s [of 9375 6] by simp
  next
    case 3 then show ?thesis using s [of 15625 4] by simp
  next
    case 4 then show ?thesis using s [of 11875 5] by simp
  next
    case 5 then show ?thesis using s [of 1875 6] by simp
  next
    case 6 then show ?thesis using s [of 3125 5] by simp
  next
    case 7 then show ?thesis using s [of 9375 5] by simp
  next
    case 8 then show ?thesis using s [of 625 9] by simp
  next
    case 9 then show ?thesis using s [of 28125 4] by simp
  next
    case 10 then show ?thesis using s [of 9375 3] by simp
  qed
  moreover have "binary32 (of_int n)" using assms(2) by (intro binary32_int) simp
  ultimately show ?thesis by simp
qed

text \<open>
  \<^verbatim>\<open>price * numberTicket\<close> rounds twice: the number of tickets to a float, then the
  product of the price and that float to a float. When a float holds the number of
  tickets only the product is rounded.
\<close>

lemma fmul32_two_roundings:
  "fmul32 p (int_to_float n) = round32 (p * round24 (of_int n))"
  by (simp add: fmul32_def int_to_float_def)

lemma fmul32_one_rounding:
  "binary32 (of_int n) \<Longrightarrow> fmul32 p (int_to_float n) = round32 (p * of_int n)"
  by (simp add: fmul32_def int_to_float_exact)

text \<open>
  The result need not be the float nearest to the exact product: with 16777217
  tickets at 75000 the number of tickets is rounded to 16777216 first.
\<close>

lemma fmul32_gilgit_16777217:
  "fmul32 75000 (int_to_float 16777217) = Fin 1258291200000"
  "round32 (75000 * 16777217) = Fin 1258291331072"
  by code_simp+

text \<open>\<open>600000 \<times> 1791 = 1074600000\<close> needs 25 bits: the float nearest to it is 64 less.\<close>

lemma fmul32_tokyo_1791: "fmul32 600000 (int_to_float 1791) = Fin 1074599936"
  by code_simp

subsection \<open>\<^verbatim>\<open>booking\<close>: the number of tickets\<close>

text \<open>
  C2, as stated, fails: \<^verbatim>\<open>booking\<close> tests the number of tickets against zero only
  (\<^verbatim>\<open>if (userptr->numberTicket == 0) return;\<close>, under the comment "If number of tickets
  is zero, abort booking"). With \<open>-1\<close> tickets, an empty triple and tour code 3 the
  booking completes and the record holds \<open>-1\<close> tickets.
\<close>

theorem booking_negative_tickets_counterexample:
  "(- 1 :: int) \<le> 0 \<and> no_booking alice \<and> at_node (currentUser g_alice) [alice] [] alice [] \<and>
   tour ''3'' = Some (250000, ''Bangkok, Thailand'') \<and>
   booking [alice] ''3'' (CHR ''1'') (- 1) g_alice =
     (BookingCompleted,
      [alice\<lparr>numberTicket := - 1, place := ''Bangkok, Thailand'', price := 250000\<rparr>],
      filing [alice\<lparr>numberTicket := - 1, place := ''Bangkok, Thailand'', price := 250000\<rparr>]
        g_alice) \<and>
   fst (booking [alice] ''3'' (CHR ''1'') (- 1) g_alice) \<noteq> ZeroTickets"
  by (simp add: booking_def Let_def no_booking_def at_node_def alice_def newptr_def g_alice_def
      tour_def priceList_def placeList_def)

text \<open>
  C2, amended. For the record of the current user with an empty booking triple, a
  tour code of the catalogue and the answer \<^verbatim>\<open>1\<close> to the confirmation: when the number
  of tickets is zero, \<^verbatim>\<open>booking\<close> leaves by the \<open>ZeroTickets\<close> return and the list is
  unchanged (the triple stays empty, nothing is written to the file); for every other
  number, negative ones included, the booking completes and the triple is the place
  and price of the catalogue entry with that number of tickets.
\<close>

theorem booking_zero_tickets:
  assumes "at_node (currentUser g) userptr pre u rest" and "no_booking u"
    and "tour code = Some (pr, pl)"
  shows "booking userptr code (CHR ''1'') n g =
     (if n = 0 then (ZeroTickets, userptr, g)
      else (BookingCompleted,
            pre @ u\<lparr>numberTicket := n, place := pl, price := pr\<rparr> # rest,
            filing (pre @ u\<lparr>numberTicket := n, place := pl, price := pr\<rparr> # rest) g))"
proof -
  have "u\<lparr>numberTicket := 0\<rparr> = u" using assms(2) by (simp add: no_booking_def)
  moreover have "userptr = pre @ u # rest" using assms(1) by (simp add: at_node_def)
  ultimately show ?thesis
    using assms by (simp add: booking_def find_node_at update_node_at no_booking_def Let_def)
qed

theorem booking_zero_tickets_witness:
  "at_node (currentUser g_alice) [bob, alice, carol] [bob] alice [carol] \<and> no_booking alice \<and>
   tour ''3'' = Some (250000, ''Bangkok, Thailand'') \<and>
   booking [bob, alice, carol] ''3'' (CHR ''1'') 0 g_alice =
     (ZeroTickets, [bob, alice, carol], g_alice) \<and>
   booking [bob, alice, carol] ''3'' (CHR ''1'') 2 g_alice =
     (BookingCompleted, [bob, alice_bangkok, carol], filing [bob, alice_bangkok, carol] g_alice)"
proof -
  have a: "at_node (currentUser g_alice) [bob, alice, carol] [bob] alice [carol]"
    by (simp add: at_node_def g_alice_def alice_def bob_def newptr_def)
  have b: "no_booking alice" by (simp add: no_booking_def alice_def newptr_def)
  have t: "tour ''3'' = Some (250000, ''Bangkok, Thailand'')"
    by (simp add: tour_def priceList_def placeList_def)
  show ?thesis
    using a b t booking_zero_tickets [OF a b t, of 0] booking_zero_tickets [OF a b t, of 2]
    by (simp add: alice_bangkok_def alice_def newptr_def)
qed

subsection \<open>\<^verbatim>\<open>cancellation\<close>\<close>

text \<open>
  C9, as stated, fails in the amount: the refund is the product of two floats, which
  is rounded to a float. A booking of 1791 tickets for tour 2 (600000 a ticket) is
  refunded as 1074599936, not \<open>600000 \<times> 1791 = 1074600000\<close>.
\<close>

theorem cancellation_refund_counterexample:
  "booking [alice] ''2'' (CHR ''1'') 1791 g_alice =
     (BookingCompleted, [alice_tokyo], filing [alice_tokyo] g_alice) \<and>
   booked alice_tokyo \<and>
   fst (cancellation [alice_tokyo] (filing [alice_tokyo] g_alice)) =
     Cancelled ''Tokyo, Japan'' 1791 (Fin 1074599936) \<and>
   price alice_tokyo * of_int (numberTicket alice_tokyo) = 1074600000 \<and>
   fst (cancellation [alice_tokyo] (filing [alice_tokyo] g_alice)) \<noteq>
     Cancelled (place alice_tokyo) (numberTicket alice_tokyo)
       (Fin (price alice_tokyo * of_int (numberTicket alice_tokyo)))"
  by (simp add: booking_def cancellation_def Let_def booked_def valid_tour_def alice_def
      alice_tokyo_def newptr_def g_alice_def filing_def tour_def priceList_def placeList_def
      fmul32_tokyo_1791)

text \<open>
  C9, amended. For the record of the current user:
  \<^item> with a booking, \<^verbatim>\<open>cancellation\<close> answers \<open>Cancelled\<close> with the refund
    \<^verbatim>\<open>price * numberTicket\<close> computed in floats, resets the triple to the empty one and
    writes the file;
  \<^item> that refund is the price times the number of tickets with two roundings: the
    number of tickets is rounded to a float, and the product of the price and that
    float is rounded to a float (\<open>round32\<close>, an infinity on overflow); when a float
    holds the number of tickets, only the product is rounded;
  \<^item> it is exactly the price times the number of tickets whenever a float holds the
    number of tickets and the product;
  \<^item> with an empty triple, it answers \<open>NoTourToCancel\<close> and changes nothing;
  \<^item> after a completed \<^verbatim>\<open>booking\<close> on an empty triple, \<^verbatim>\<open>cancellation\<close> gives back the
    list as it was before the booking.
\<close>

theorem cancellation_refund:
  assumes "at_node (currentUser g) userptr pre u rest"
  shows "(booked u \<longrightarrow>
           cancellation userptr g =
             (Cancelled (place u) (numberTicket u)
                (fmul32 (price u) (int_to_float (numberTicket u))),
              pre @ u\<lparr>place := ''N/A'', price := 0, numberTicket := 0\<rparr> # rest,
              filing (pre @ u\<lparr>place := ''N/A'', price := 0, numberTicket := 0\<rparr> # rest) g) \<and>
           no_booking (u\<lparr>place := ''N/A'', price := 0, numberTicket := 0\<rparr>)) \<and>
         fmul32 (price u) (int_to_float (numberTicket u)) =
           round32 (price u * round24 (of_int (numberTicket u))) \<and>
         (binary32 (of_int (numberTicket u)) \<longrightarrow>
           fmul32 (price u) (int_to_float (numberTicket u)) =
             round32 (price u * of_int (numberTicket u))) \<and>
         (binary32 (of_int (numberTicket u)) \<and> binary32 (price u * of_int (numberTicket u)) \<longrightarrow>
           fmul32 (price u) (int_to_float (numberTicket u)) =
             Fin (price u * of_int (numberTicket u))) \<and>
         (no_booking u \<longrightarrow> cancellation userptr g = (NoTourToCancel, userptr, g)) \<and>
         (no_booking u \<and> booking userptr code choice n g = (BookingCompleted, userptr', g') \<longrightarrow>
           fst (snd (cancellation userptr' g')) = userptr)"
proof -
  have 1: "cancellation userptr g =
             (Cancelled (place u) (numberTicket u)
                (fmul32 (price u) (int_to_float (numberTicket u))),
              pre @ u\<lparr>place := ''N/A'', price := 0, numberTicket := 0\<rparr> # rest,
              filing (pre @ u\<lparr>place := ''N/A'', price := 0, numberTicket := 0\<rparr> # rest) g)"
    if "booked u"
    using assms that by (simp add: cancellation_def find_node_at update_node_at Let_def booked_def)
  have 2: "no_booking (u\<lparr>place := ''N/A'', price := 0, numberTicket := 0\<rparr>)"
    by (simp add: no_booking_def)
  have 3: "cancellation userptr g = (NoTourToCancel, userptr, g)" if "no_booking u"
    using assms that by (simp add: cancellation_def find_node_at no_booking_def valid_tour_def)
  have 4: "fst (snd (cancellation userptr' g')) = userptr"
    if nb: "no_booking u"
      and b: "booking userptr code choice n g = (BookingCompleted, userptr', g')"
  proof -
    obtain pr pl where t: "tour code = Some (pr, pl)"
      using b assms by (cases "tour code") (auto simp: booking_def find_node_at split: if_splits)
    let ?v = "u\<lparr>numberTicket := n, place := pl, price := pr\<rparr>"
    have r: "userptr' = pre @ ?v # rest" "g' = filing userptr' g"
      using b assms t
      by (auto simp: booking_def find_node_at update_node_at Let_def split: if_splits)
    have a: "at_node (currentUser g') userptr' pre ?v rest"
      using assms r by (simp add: at_node_def currentUser_filing)
    have "valid_tour pl" using t tour_price by blast
    moreover have "?v\<lparr>place := ''N/A'', price := 0, numberTicket := 0\<rparr> = u"
      using nb by (simp add: no_booking_def)
    moreover have "userptr = pre @ u # rest" using assms by (simp add: at_node_def)
    ultimately show ?thesis
      using a by (simp add: cancellation_def find_node_at update_node_at Let_def)
  qed
  show ?thesis
    using 1 2 3 4 fmul32_exact fmul32_one_rounding
      fmul32_two_roundings [of "price u" "numberTicket u"]
    by blast
qed

theorem cancellation_refund_witness:
  "at_node (currentUser g_alice) [bob, alice_bangkok] [bob] alice_bangkok [] \<and>
   booked alice_bangkok \<and>
   binary32 (of_int (numberTicket alice_bangkok)) \<and>
   binary32 (price alice_bangkok * of_int (numberTicket alice_bangkok)) \<and>
   cancellation [bob, alice_bangkok] g_alice =
     (Cancelled ''Bangkok, Thailand'' 2 (Fin 500000), [bob, alice], filing [bob, alice] g_alice) \<and>
   at_node (currentUser g_alice) [bob, alice] [bob] alice [] \<and> no_booking alice \<and>
   cancellation [bob, alice] g_alice = (NoTourToCancel, [bob, alice], g_alice) \<and>
   booking [bob, alice] ''3'' (CHR ''1'') 2 g_alice =
     (BookingCompleted, [bob, alice_bangkok], filing [bob, alice_bangkok] g_alice) \<and>
   fst (snd (cancellation [bob, alice_bangkok] (filing [bob, alice_bangkok] g_alice))) =
     [bob, alice]"
proof -
  have a1: "at_node (currentUser g_alice) [bob, alice_bangkok] [bob] alice_bangkok []"
    by (simp add: at_node_def g_alice_def alice_bangkok_def alice_def bob_def newptr_def)
  have a2: "at_node (currentUser g_alice) [bob, alice] [bob] alice []"
    by (simp add: at_node_def g_alice_def alice_def bob_def newptr_def)
  have k: "booked alice_bangkok"
    by (simp add: booked_def valid_tour_def alice_bangkok_def alice_def newptr_def)
  have nb: "no_booking alice" by (simp add: no_booking_def alice_def newptr_def)
  have x: "binary32 (of_int (numberTicket alice_bangkok)) \<and>
      binary32 (price alice_bangkok * of_int (numberTicket alice_bangkok))"
    using catalogue_product_exact [of 250000 2]
    by (simp add: priceList_def alice_bangkok_def alice_def newptr_def)
  have r: "alice_bangkok\<lparr>place := ''N/A'', price := 0, numberTicket := 0\<rparr> = alice"
    by (simp add: alice_bangkok_def alice_def newptr_def)
  have b: "booking [bob, alice] ''3'' (CHR ''1'') 2 g_alice =
     (BookingCompleted, [bob, alice_bangkok], filing [bob, alice_bangkok] g_alice)"
    by (simp add: booking_def Let_def alice_def alice_bangkok_def bob_def newptr_def g_alice_def
        tour_def priceList_def placeList_def)
  have v: "place alice_bangkok = ''Bangkok, Thailand''" "numberTicket alice_bangkok = 2"
    "price alice_bangkok = 250000"
    by (simp_all add: alice_bangkok_def)
  have e: "round32 (250000 * round24 2) = Fin 500000" by code_simp
  show ?thesis
    using a1 a2 k nb x b cancellation_refund [OF a1]
      cancellation_refund [OF a2, of "''3''" "CHR ''1''" 2]
    by (simp add: r v e)
qed

subsection \<open>\<^verbatim>\<open>checkTicket\<close>\<close>

text \<open>
  C10, as stated, fails: the total is stored in a \<^verbatim>\<open>float\<close>, and a float does not
  hold every product. After tour 2 has been booked with 1791 tickets the total shown
  is 1074599936, not \<open>600000 \<times> 1791 = 1074600000\<close>.
\<close>

theorem checkTicket_total_counterexample:
  "booking [alice] ''2'' (CHR ''1'') 1791 g_alice =
     (BookingCompleted, [alice_tokyo], filing [alice_tokyo] g_alice) \<and>
   booked alice_tokyo \<and>
   checkTicket [alice_tokyo] (filing [alice_tokyo] g_alice) =
     TicketTotal 1791 (Fin 1074599936) ''Tokyo, Japan'' \<and>
   price alice_tokyo * of_int (numberTicket alice_tokyo) = 1074600000 \<and>
   checkTicket [alice_tokyo] (filing [alice_tokyo] g_alice) \<noteq>
     TicketTotal (numberTicket alice_tokyo)
       (Fin (price alice_tokyo * of_int (numberTicket alice_tokyo))) (place alice_tokyo)"
  by (simp add: booking_def checkTicket_def Let_def booked_def valid_tour_def alice_def
      alice_tokyo_def newptr_def g_alice_def filing_def tour_def priceList_def placeList_def
      fmul32_tokyo_1791)

text \<open>
  C10, amended. For the record of the current user: with a booking, \<^verbatim>\<open>checkTicket\<close>
  shows the number of tickets, the place and the total \<^verbatim>\<open>price * numberTicket\<close>
  computed in floats. That total is the price times the number of tickets with two
  roundings: the number of tickets is rounded to a float, and the product of the price
  and that float is rounded to a float (\<open>round32\<close>, an infinity on overflow); when a
  float holds the number of tickets, only the product is rounded. It is exactly the
  price times the number of tickets whenever a float holds the number of tickets and
  the product, as it does for every price of the catalogue with at most 596 tickets.
  With an empty triple it shows \<open>NoTicketBooked\<close>.
\<close>

theorem checkTicket_total:
  assumes "at_node (currentUser g) userptr pre u rest"
  shows "(booked u \<longrightarrow>
           checkTicket userptr g =
             TicketTotal (numberTicket u) (fmul32 (price u) (int_to_float (numberTicket u)))
               (place u)) \<and>
         fmul32 (price u) (int_to_float (numberTicket u)) =
           round32 (price u * round24 (of_int (numberTicket u))) \<and>
         (binary32 (of_int (numberTicket u)) \<longrightarrow>
           fmul32 (price u) (int_to_float (numberTicket u)) =
             round32 (price u * of_int (numberTicket u))) \<and>
         (binary32 (of_int (numberTicket u)) \<and> binary32 (price u * of_int (numberTicket u)) \<longrightarrow>
           fmul32 (price u) (int_to_float (numberTicket u)) =
             Fin (price u * of_int (numberTicket u))) \<and>
         (price u \<in> set priceList \<and> \<bar>numberTicket u\<bar> \<le> 596 \<longrightarrow>
           fmul32 (price u) (int_to_float (numberTicket u)) =
             Fin (price u * of_int (numberTicket u))) \<and>
         (no_booking u \<longrightarrow> checkTicket userptr g = NoTicketBooked)"
proof -
  have "checkTicket userptr g =
          TicketTotal (numberTicket u) (fmul32 (price u) (int_to_float (numberTicket u))) (place u)"
    if "booked u"
    using assms that by (auto simp: checkTicket_def find_node_at booked_def valid_tour_def)
  moreover have "checkTicket userptr g = NoTicketBooked" if "no_booking u"
    using assms that by (simp add: checkTicket_def find_node_at no_booking_def)
  ultimately show ?thesis
    using fmul32_exact catalogue_product_exact fmul32_one_rounding
      fmul32_two_roundings [of "price u" "numberTicket u"]
    by blast
qed

theorem checkTicket_total_witness:
  "at_node (currentUser g_alice) [bob, alice_bangkok] [bob] alice_bangkok [] \<and>
   booked alice_bangkok \<and>
   binary32 (of_int (numberTicket alice_bangkok)) \<and>
   binary32 (price alice_bangkok * of_int (numberTicket alice_bangkok)) \<and>
   price alice_bangkok \<in> set priceList \<and> \<bar>numberTicket alice_bangkok\<bar> \<le> 596 \<and>
   checkTicket [bob, alice_bangkok] g_alice = TicketTotal 2 (Fin 500000) ''Bangkok, Thailand'' \<and>
   at_node (currentUser g_alice) [bob, alice] [bob] alice [] \<and> no_booking alice \<and>
   checkTicket [bob, alice] g_alice = NoTicketBooked"
proof -
  have a1: "at_node (currentUser g_alice) [bob, alice_bangkok] [bob] alice_bangkok []"
    by (simp add: at_node_def g_alice_def alice_bangkok_def alice_def bob_def newptr_def)
  have a2: "at_node (currentUser g_alice) [bob, alice] [bob] alice []"
    by (simp add: at_node_def g_alice_def alice_def bob_def newptr_def)
  have k: "booked alice_bangkok"
    by (simp add: booked_def valid_tour_def alice_bangkok_def alice_def newptr_def)
  have nb: "no_booking alice" by (simp add: no_booking_def alice_def newptr_def)
  have c: "price alice_bangkok \<in> set priceList \<and> \<bar>numberTicket alice_bangkok\<bar> \<le> 596"
    by (simp add: priceList_def alice_bangkok_def)
  then have x: "binary32 (of_int (numberTicket alice_bangkok)) \<and>
      binary32 (price alice_bangkok * of_int (numberTicket alice_bangkok))"
    using catalogue_product_exact by blast
  have v: "place alice_bangkok = ''Bangkok, Thailand''" "numberTicket alice_bangkok = 2"
    "price alice_bangkok = 250000"
    by (simp_all add: alice_bangkok_def)
  have e: "round32 (250000 * round24 2) = Fin 500000" by code_simp
  show ?thesis
    using a1 a2 k nb c x checkTicket_total [OF a1] checkTicket_total [OF a2]
    by (simp add: v e)
qed

subsection \<open>Writing the file and reading it back\<close>

text \<open>
  The file written for a store of two records, the second with a booking, and what is
  read back from it: \<^verbatim>\<open>%s\<close> stops at the space inside \<^verbatim>\<open>Paris, France\<close>, \<^verbatim>\<open>%f\<close> fails
  on \<^verbatim>\<open>France\<close>, the node is built with the price and number of tickets of the record
  before, and the next call starts at \<^verbatim>\<open>France\<close>.
\<close>

lemma filing_bob_alice_paris:
  "users_txt (filing [bob, alice_paris] g_menu) =
     Some (''bob pw2 N/A 0.000000 0'' @ [CHR 0x0A]
           @ ''alice pw1 Paris, France 400000.000000 2'' @ [CHR 0x0A])"
  by code_simp

lemma initializeUser_bob_alice_paris:
  "initializeUser [] (filing [bob, alice_paris] g_menu) =
     Inr [bob, paris_fragment, france_fragment]"
  by code_simp

lemma initializeUser_bob_erin_miami:
  "initializeUser [] (filing [bob, erin_miami] g_menu) =
     Inr [bob, erin_fragment, miami_fragment]"
  by code_simp

text \<open>
  C1 fails on the code. \<^verbatim>\<open>filing\<close> writes the place and the password with \<^verbatim>\<open>%s\<close> and
  \<^verbatim>\<open>initializeUser\<close> reads them with \<^verbatim>\<open>%s\<close>, which ends at white space; every place of
  the catalogue holds a space. Saving the store \<open>[bob, alice_paris]\<close> and loading it
  gives three records, none of them \<open>alice_paris\<close>; a password with a space is cut
  in the same way (\<open>erin_miami\<close>). When the record with the booking is the first of the
  file, the node is built from the price and number of tickets of a \<^verbatim>\<open>temp\<close> that was
  never assigned.
\<close>

theorem filing_initializeUser_splits_place:
  "users_txt (filing [bob, alice_paris] g_menu) =
     Some (''bob pw2 N/A 0.000000 0'' @ [CHR 0x0A]
           @ ''alice pw1 Paris, France 400000.000000 2'' @ [CHR 0x0A]) \<and>
   initializeUser [] (filing [bob, alice_paris] g_menu) =
     Inr [bob, paris_fragment, france_fragment] \<and>
   initializeUser [] (filing [bob, alice_paris] g_menu) \<noteq> Inr [bob, alice_paris] \<and>
   initializeUser [] (filing [bob, erin_miami] g_menu) =
     Inr [bob, erin_fragment, miami_fragment] \<and>
   initializeUser [] (filing [alice_paris] g_menu) = Inl UninitialisedRead"
proof -
  have "initializeUser [] (filing [alice_paris] g_menu) = Inl UninitialisedRead"
    by code_simp
  then show ?thesis
    by (simp add: filing_bob_alice_paris initializeUser_bob_alice_paris
        initializeUser_bob_erin_miami)
qed

subsection \<open>The invariant of the booking triple\<close>

lemma triple_invariant_update:
  assumes "at_node name us pre u rest" and "list_all triple_invariant us"
    and "triple_invariant (f u)"
  shows "list_all triple_invariant (update_node name f us)"
  using assms by (auto simp: update_node_at at_node_def)

lemma find_node_invariant:
  "list_all triple_invariant us \<Longrightarrow> find_node name us = u # rest \<Longrightarrow> triple_invariant u"
  using find_node_Cons_at [of name us u rest] by (auto simp: at_node_def)

lemma login_suffix: "\<exists>pre. us = pre @ fst (snd (login us name pw g))"
proof (induction us)
  case Nil
  then show ?case by simp
next
  case (Cons a us)
  then obtain pre where p: "us = pre @ fst (snd (login us name pw g))" by blast
  show ?case
  proof (cases "username a = name")
    case True
    then have "a # us = [] @ fst (snd (login (a # us) name pw g))" by simp
    then show ?thesis by blast
  next
    case False
    then have "a # us = (a # pre) @ fst (snd (login (a # us) name pw g))" using p by simp
    then show ?thesis by blast
  qed
qed

text \<open>
  \<^verbatim>\<open>addUser\<close>, \<^verbatim>\<open>login\<close>, \<^verbatim>\<open>booking\<close>, \<^verbatim>\<open>cancellation\<close> and \<^verbatim>\<open>changePassword\<close> keep the
  invariant of every record of the list.
\<close>

lemma operations_keep_triple_invariant:
  assumes "list_all triple_invariant userptr"
  shows "list_all triple_invariant (fst (snd (addUser userptr name pw g)))"
    and "list_all triple_invariant (fst (snd (login userptr name pw g)))"
    and "list_all triple_invariant (fst (snd (booking userptr code choice n g)))"
    and "list_all triple_invariant (fst (snd (cancellation userptr g)))"
    and "list_all triple_invariant (fst (snd (changePassword userptr passCurrent newpw g)))"
proof -
  show "list_all triple_invariant (fst (snd (addUser userptr name pw g)))"
    using assms by (simp add: addUser_def Let_def newptr_def triple_invariant_def)
  obtain pre where "userptr = pre @ fst (snd (login userptr name pw g))"
    using login_suffix by blast
  then show "list_all triple_invariant (fst (snd (login userptr name pw g)))"
    using assms by (metis list_all_append)
  show "list_all triple_invariant (fst (snd (booking userptr code choice n g)))"
  proof (cases "find_node (currentUser g) userptr")
    case Nil
    then show ?thesis using assms by (simp add: booking_def)
  next
    case (Cons u rest)
    then obtain pre where a: "at_node (currentUser g) userptr pre u rest"
      using find_node_Cons_at by blast
    have i: "triple_invariant u" using assms Cons by (rule find_node_invariant)
    have z: "triple_invariant (u\<lparr>numberTicket := 0\<rparr>)" if "price u = 0"
      using i that by (simp add: triple_invariant_def)
    have b: "triple_invariant (u\<lparr>numberTicket := n, place := pl, price := pr\<rparr>)"
      if "tour code = Some (pr, pl)" "n \<noteq> 0" for pr pl
      using tour_price [OF that(1)] that(2) by (auto simp: triple_invariant_def valid_tour_def)
    show ?thesis
      using assms Cons z b triple_invariant_update [OF a assms]
      by (auto simp: booking_def Let_def split: option.splits)
  qed
  show "list_all triple_invariant (fst (snd (cancellation userptr g)))"
  proof (cases "find_node (currentUser g) userptr")
    case Nil
    then show ?thesis using assms by (simp add: cancellation_def)
  next
    case (Cons u rest)
    then obtain pre where a: "at_node (currentUser g) userptr pre u rest"
      using find_node_Cons_at by blast
    have "triple_invariant (u\<lparr>place := ''N/A'', price := 0, numberTicket := 0\<rparr>)"
      by (simp add: triple_invariant_def)
    then show ?thesis
      using assms Cons triple_invariant_update [OF a assms]
      by (auto simp: cancellation_def Let_def)
  qed
  show "list_all triple_invariant (fst (snd (changePassword userptr passCurrent newpw g)))"
  proof (cases "find_node (currentUser g) userptr")
    case Nil
    then show ?thesis using assms by (simp add: changePassword_def)
  next
    case (Cons u rest)
    then obtain pre where a: "at_node (currentUser g) userptr pre u rest"
      using find_node_Cons_at by blast
    have "triple_invariant u" using assms Cons by (rule find_node_invariant)
    then have "triple_invariant (u\<lparr>password := newpw\<rparr>)" by (simp add: triple_invariant_def)
    then show ?thesis
      using assms Cons triple_invariant_update [OF a assms]
      by (auto simp: changePassword_def Let_def)
  qed
qed

text \<open>
  C3 fails on the code, in \<^verbatim>\<open>initializeUser\<close> alone. Every record of the store
  \<open>[bob, alice_paris]\<close> satisfies the invariant; the store read back from the file
  written for it holds \<open>paris_fragment\<close>, whose place is not the sentinel while its
  price and its number of tickets are zero.
\<close>

theorem initializeUser_breaks_invariant:
  "list_all triple_invariant [bob, alice_paris] \<and>
   initializeUser [] (filing [bob, alice_paris] g_menu) =
     Inr [bob, paris_fragment, france_fragment] \<and>
   place paris_fragment \<noteq> ''N/A'' \<and> price paris_fragment = 0 \<and>
   numberTicket paris_fragment = 0 \<and>
   \<not> list_all triple_invariant [bob, paris_fragment, france_fragment]"
proof (intro conjI)
  show "list_all triple_invariant [bob, alice_paris]"
    by (simp add: triple_invariant_def bob_def alice_paris_def alice_def newptr_def)
  show "initializeUser [] (filing [bob, alice_paris] g_menu) =
      Inr [bob, paris_fragment, france_fragment]"
    by (rule initializeUser_bob_alice_paris)
  show "place paris_fragment \<noteq> ''N/A''" "price paris_fragment = 0"
    "numberTicket paris_fragment = 0"
    by (simp_all add: paris_fragment_def)
  show "\<not> list_all triple_invariant [bob, paris_fragment, france_fragment]"
    by (simp add: triple_invariant_def paris_fragment_def)
qed

subsection \<open>A session\<close>

text \<open>
  The program run from an empty store: alice registers, logs in, books tour 3 with
  two tickets, looks at the total, cancels, and books again. Each step answers as the
  properties above say.
\<close>

lemma session_alice:
  "(let (o1, s1, g1) = addUser [] ''alice'' ''pw1'' g_menu;
        (o2, s2, g2) = login s1 ''alice'' ''pw1'' g1;
        (o3, s3, g3) = booking s2 ''3'' (CHR ''1'') 2 g2;
        o4 = checkTicket s3 g3;
        (o5, s5, g5) = cancellation s3 g3;
        (o6, s6, g6) = booking s5 ''3'' (CHR ''1'') 2 g5
    in (o1, o2, o3, s3, o4, o5, s5, o6, s6)) =
   (AccountCreated, LoginSuccessful, BookingCompleted, [alice_bangkok],
    TicketTotal 2 (Fin 500000) ''Bangkok, Thailand'',
    Cancelled ''Bangkok, Thailand'' 2 (Fin 500000), [alice],
    BookingCompleted, [alice_bangkok])"
  by code_simp

text \<open>
  The same run up to the booking, then the program is started again: the file holds
  the one line of alice, and reading it builds a node from fields of \<^verbatim>\<open>temp\<close> that were
  never assigned.
\<close>

lemma session_alice_restart:
  "(let (o1, s1, g1) = addUser [] ''alice'' ''pw1'' g_menu;
        (o2, s2, g2) = login s1 ''alice'' ''pw1'' g1;
        (o3, s3, g3) = booking s2 ''3'' (CHR ''1'') 2 g2
    in (users_txt g3, initializeUser [] g3)) =
   (Some (''alice pw1 Bangkok, Thailand 250000.000000 2'' @ [CHR 0x0A]),
    Inl UninitialisedRead)"
  by code_simp

end
